theory Spec2Isabelle
  imports Main
begin

section \<open>ConnectSphere chat server (server.js)\<close>

text \<open>
  A shallow embedding of the socket handlers of \<^verbatim>\<open>server.js\<close>. The three module-level
  stores (\<^verbatim>\<open>serverUsers\<close>, \<^verbatim>\<open>serverRooms\<close>, \<^verbatim>\<open>serverMessagesByRoom\<close>) and the
  socket.io room table form one state record; every handler takes the state and the id of
  the socket it runs on, and returns what it passes to its callback, the new state and the
  events it emits.
\<close>

subsection \<open>Strings\<close>

text \<open>
  A character is a code point from U+0000 to U+00FF. \<^verbatim>\<open>String.prototype.trim\<close> strips
  white space and line terminators from both ends: in this range the tab, line feed,
  vertical tab, form feed, carriage return, the space and the no-break space U+00A0.
  \<^verbatim>\<open>String.prototype.toLowerCase\<close> maps every capital letter to its small letter: in
  this range A to Z and the accented capitals U+00C0 to U+00DE, the multiplication sign
  U+00D7 left aside, each to the code point 32 above.
\<close>

definition is_space :: "char \<Rightarrow> bool" where
  "is_space c \<longleftrightarrow> (of_char c :: nat) \<in> {9, 10, 11, 12, 13, 32, 160}"

definition trim :: "string \<Rightarrow> string" where
  "trim s = rev (dropWhile is_space (rev (dropWhile is_space s)))"

definition lower_char :: "char \<Rightarrow> char" where
  "lower_char c =
     (if 65 \<le> (of_char c :: nat) \<and> (of_char c :: nat) \<le> 90 \<or>
         192 \<le> (of_char c :: nat) \<and> (of_char c :: nat) \<le> 222 \<and> (of_char c :: nat) \<noteq> 215
      then char_of ((of_char c :: nat) + 32) else c)"

definition toLowerCase :: "string \<Rightarrow> string" where
  "toLowerCase s = map lower_char s"

text \<open>Decimal rendering of a number inside a template literal.\<close>

fun string_of_nat :: "nat \<Rightarrow> string" where
  "string_of_nat n =
     (if n < 10 then [char_of (48 + n)]
      else string_of_nat (n div 10) @ [char_of (48 + n mod 10)])"

declare string_of_nat.simps [simp del]

subsection \<open>Data model (types.ts)\<close>

record user =
  user_id :: string
  user_name :: string

record room =
  room_id :: string
  room_name :: string
  createdBy :: user

record message =
  msg_id :: string
  roomId :: string
  sender :: user
  msg_text :: string
  timestamp :: nat

subsection \<open>Server state\<close>

text \<open>
  \<open>connected\<close> holds the ids of the sockets that are open and \<open>socket_rooms s c\<close> is
  \<^verbatim>\<open>socket.rooms\<close> of the socket with id \<open>c\<close>: the set of socket.io rooms it has joined,
  which socket.io seeds with the socket's own id.
\<close>

record server =
  serverUsers :: "string \<rightharpoonup> user"
  serverRooms :: "room list"
  serverMessagesByRoom :: "string \<rightharpoonup> message list"
  connected :: "string set"
  socket_rooms :: "string \<Rightarrow> string set"

definition initial :: server where
  "initial = \<lparr>serverUsers = Map.empty, serverRooms = [], serverMessagesByRoom = Map.empty,
              connected = {}, socket_rooms = (\<lambda>c. {})\<rparr>"

subsection \<open>Property lookup on a plain object\<close>

text \<open>
  \<^verbatim>\<open>serverMessagesByRoom\<close> is created as \<^verbatim>\<open>{}\<close>, so \<^verbatim>\<open>serverMessagesByRoom[roomId]\<close>
  with a key the client chose is an ordinary property read: it yields the array stored under
  the key when there is one, the member of \<^verbatim>\<open>Object.prototype\<close> of that name when the
  key is one of its property names, and \<^verbatim>\<open>undefined\<close> otherwise. An inherited member is a
  function or an object: it is truthy and has no \<^verbatim>\<open>push\<close>.

  The keys of \<^verbatim>\<open>serverUsers\<close> are socket ids, which the transport generates; that store
  is read as a plain map.
\<close>

definition object_prototype_keys :: "string list" where
  "object_prototype_keys =
     [''constructor'', ''__proto__'', ''hasOwnProperty'', ''isPrototypeOf'',
      ''propertyIsEnumerable'', ''toLocaleString'', ''toString'', ''valueOf'',
      ''__defineGetter__'', ''__defineSetter__'', ''__lookupGetter__'', ''__lookupSetter__'']"

datatype jsval = Array "message list" | Inherited | Undefined

definition js_get :: "(string \<rightharpoonup> message list) \<Rightarrow> string \<Rightarrow> jsval" where
  "js_get obj k =
     (case obj k of
        Some ms \<Rightarrow> Array ms
      | None \<Rightarrow> if k \<in> set object_prototype_keys then Inherited else Undefined)"

text \<open>\<^verbatim>\<open>obj[k] || []\<close>: every array, the empty one too, is truthy.\<close>

definition js_get_or_empty :: "(string \<rightharpoonup> message list) \<Rightarrow> string \<Rightarrow> jsval" where
  "js_get_or_empty obj k = (case js_get obj k of Undefined \<Rightarrow> Array [] | v \<Rightarrow> v)"

text \<open>An argument the client left out is \<^verbatim>\<open>undefined\<close>; as a property key it reads
  \<^verbatim>\<open>"undefined"\<close>.\<close>

definition property_key :: "string option \<Rightarrow> string" where
  "property_key k = (case k of None \<Rightarrow> ''undefined'' | Some s \<Rightarrow> s)"

subsection \<open>Responses and emitted events\<close>

text \<open>
  What a handler passes to its callback. \<open>RoomResp r isNew err\<close> is
  \<^verbatim>\<open>{ room, isNew, error? }\<close>; \<open>Uncaught_TypeError\<close> stands for a handler that throws
  before it reaches its callback; \<open>NoResp\<close> for the handlers without one.
\<close>

datatype response =
    ErrorResp string
  | LoginResp user "room list"
  | RoomResp room bool "string option"
  | MessagesResp jsval
  | SentResp message
  | ListResp jsval
  | RoomsResp "room list"
  | Uncaught_TypeError
  | NoResp

datatype target = ToSocket string | ToAll | ToRoom string

datatype event = InitialRooms "room list" | RoomCreated room | NewMessage message

type_synonym result = "response \<times> server \<times> (target \<times> event) list"


definition socket_join :: "server \<Rightarrow> string \<Rightarrow> string \<Rightarrow> server" where
  "socket_join s sid r = s\<lparr>socket_rooms := (socket_rooms s)(sid := insert r (socket_rooms s sid))\<rparr>"

text \<open>The rooms a connection is subscribed to, its private group left aside.\<close>

definition subscriptions :: "server \<Rightarrow> string \<Rightarrow> string set" where
  "subscriptions s c = socket_rooms s c - {c}"

subsection \<open>Handlers\<close>

definition connection :: "server \<Rightarrow> string \<Rightarrow> result" where
  "connection s sid =
     (NoResp,
      s\<lparr>connected := insert sid (connected s), socket_rooms := (socket_rooms s)(sid := {sid})\<rparr>,
      [(ToSocket sid, InitialRooms (serverRooms s))])"

definition login :: "server \<Rightarrow> string \<Rightarrow> string option \<Rightarrow> result" where
  "login s sid username =
     (case username of
        None \<Rightarrow> (ErrorResp ''Username is required.'', s, [])
      | Some name \<Rightarrow>
          if name = [] \<or> trim name = [] then (ErrorResp ''Username is required.'', s, [])
          else
            let usr = \<lparr>user_id = sid, user_name = trim name\<rparr>
            in (LoginResp usr (serverRooms s), s\<lparr>serverUsers := (serverUsers s)(sid \<mapsto> usr)\<rparr>, []))"

definition new_room_id :: "nat \<Rightarrow> string \<Rightarrow> string" where
  "new_room_id now rnd = ''room-'' @ string_of_nat now @ ''-'' @ rnd"

text \<open>
  \<open>now\<close> is the value of \<^verbatim>\<open>Date.now()\<close> and \<open>rnd\<close> that of
  \<^verbatim>\<open>Math.random().toString(36).substr(2, 5)\<close> at the call.
\<close>

definition createRoom :: "server \<Rightarrow> string \<Rightarrow> string option \<Rightarrow> nat \<Rightarrow> string \<Rightarrow> result" where
  "createRoom s sid roomName now rnd =
     (case serverUsers s sid of
        None \<Rightarrow> (ErrorResp ''User not authenticated.'', s, [])
      | Some creatingUser \<Rightarrow>
          (case roomName of
             None \<Rightarrow> (ErrorResp ''Room name is required.'', s, [])
           | Some rn \<Rightarrow>
               if rn = [] \<or> trim rn = [] then (ErrorResp ''Room name is required.'', s, [])
               else
                 let trimmedRoomName = trim rn in
                 (case find (\<lambda>r. toLowerCase (room_name r) = toLowerCase trimmedRoomName)
                         (serverRooms s) of
                    Some existingRoom \<Rightarrow>
                      (RoomResp existingRoom False
                         (Some ''Room already exists. Joining existing room.''),
                       socket_join s sid (room_id existingRoom), [])
                  | None \<Rightarrow>
                      let newRoom = \<lparr>room_id = new_room_id now rnd, room_name = trimmedRoomName,
                                     createdBy = creatingUser\<rparr>;
                          s1 = s\<lparr>serverRooms := serverRooms s @ [newRoom]\<rparr>;
                          s2 = s1\<lparr>serverMessagesByRoom :=
                                   (serverMessagesByRoom s1)(room_id newRoom \<mapsto> [])\<rparr>
                      in (RoomResp newRoom True None, socket_join s2 sid (room_id newRoom),
                          [(ToAll, RoomCreated newRoom)]))))"

text \<open>The \<^verbatim>\<open>forEach\<close> of \<^verbatim>\<open>joinRoom\<close>: leave every room but the socket's own and the target.\<close>

definition leave_previous :: "server \<Rightarrow> string \<Rightarrow> string \<Rightarrow> server" where
  "leave_previous s sid rid =
     s\<lparr>socket_rooms := (socket_rooms s)
          (sid := Set.filter (\<lambda>roomIn. \<not> (roomIn \<noteq> sid \<and> roomIn \<noteq> rid)) (socket_rooms s sid))\<rparr>"

definition joinRoom :: "server \<Rightarrow> string \<Rightarrow> string option \<Rightarrow> result" where
  "joinRoom s sid roomId' =
     (case serverUsers s sid of
        None \<Rightarrow> (ErrorResp ''User not authenticated for joining room.'', s, [])
      | Some usr \<Rightarrow>
          (case roomId' of
             None \<Rightarrow> (ErrorResp ''Room not found.'', s, [])
           | Some rid \<Rightarrow>
               (case find (\<lambda>r. room_id r = rid) (serverRooms s) of
                  None \<Rightarrow> (ErrorResp ''Room not found.'', s, [])
                | Some rm \<Rightarrow>
                    let s1 = socket_join (leave_previous s sid rid) sid rid
                    in (MessagesResp (js_get_or_empty (serverMessagesByRoom s1) rid), s1, []))))"

definition new_msg_id :: "nat \<Rightarrow> string \<Rightarrow> string" where
  "new_msg_id now rnd = ''msg-'' @ string_of_nat now @ ''-'' @ rnd"

definition push_message :: "server \<Rightarrow> string \<Rightarrow> message list \<Rightarrow> message \<Rightarrow> result" where
  "push_message s rid log m =
     (SentResp m, s\<lparr>serverMessagesByRoom := (serverMessagesByRoom s)(rid \<mapsto> log @ [m])\<rparr>,
      [(ToRoom rid, NewMessage m)])"

text \<open>
  \<open>now\<close> and \<open>rnd\<close> are the clock and the random digits read for the message id, \<open>now'\<close>
  the second reading of the clock, for the timestamp.
\<close>

definition sendMessage ::
    "server \<Rightarrow> string \<Rightarrow> string option \<Rightarrow> string option \<Rightarrow> nat \<Rightarrow> string \<Rightarrow> nat \<Rightarrow> result" where
  "sendMessage s sid roomId' text' now rnd now' =
     (case serverUsers s sid of
        None \<Rightarrow> (ErrorResp ''User not authenticated for sending message.'', s, [])
      | Some sndr \<Rightarrow>
          (case (roomId', text') of
             (Some rid, Some txt) \<Rightarrow>
               if rid = [] \<or> txt = [] \<or> trim txt = []
               then (ErrorResp ''Room ID and text are required.'', s, [])
               else
                 let m = \<lparr>msg_id = new_msg_id now rnd, roomId = rid, sender = sndr,
                          msg_text = trim txt, timestamp = now'\<rparr>
                 in (case js_get (serverMessagesByRoom s) rid of
                       Array log \<Rightarrow> push_message s rid log m
                     | Inherited \<Rightarrow> (Uncaught_TypeError, s, [])
                     | Undefined \<Rightarrow>
                         (case find (\<lambda>r. room_id r = rid) (serverRooms s) of
                            Some rm \<Rightarrow> push_message s rid [] m
                          | None \<Rightarrow> (ErrorResp ''Room does not exist.'', s, [])))
           | _ \<Rightarrow> (ErrorResp ''Room ID and text are required.'', s, [])))"

definition getMessagesForRoom :: "server \<Rightarrow> string \<Rightarrow> string option \<Rightarrow> result" where
  "getMessagesForRoom s sid roomId' =
     (case serverUsers s sid of
        None \<Rightarrow> (ListResp (Array []), s, [])
      | Some usr \<Rightarrow>
          (ListResp (js_get_or_empty (serverMessagesByRoom s) (property_key roomId')), s, []))"

definition getAllRooms :: "server \<Rightarrow> string \<Rightarrow> result" where
  "getAllRooms s sid = (RoomsResp (serverRooms s), s, [])"

text \<open>On a disconnect socket.io takes the socket out of all its rooms, then the handler
  deletes the identity.\<close>

definition disconnect :: "server \<Rightarrow> string \<Rightarrow> result" where
  "disconnect s sid =
     (NoResp,
      s\<lparr>serverUsers := (serverUsers s)(sid := None), connected := connected s - {sid},
        socket_rooms := (socket_rooms s)(sid := {})\<rparr>, [])"

subsection \<open>Runs of the server\<close>

datatype request =
    Connect
  | Login "string option"
  | CreateRoom "string option" nat string
  | JoinRoom "string option"
  | SendMessage "string option" "string option" nat string nat
  | GetMessagesForRoom "string option"
  | GetAllRooms
  | Disconnect

fun handle :: "server \<Rightarrow> string \<Rightarrow> request \<Rightarrow> result" where
  "handle s c Connect = connection s c"
| "handle s c (Login n) = login s c n"
| "handle s c (CreateRoom n now rnd) = createRoom s c n now rnd"
| "handle s c (JoinRoom r) = joinRoom s c r"
| "handle s c (SendMessage r t now rnd now') = sendMessage s c r t now rnd now'"
| "handle s c (GetMessagesForRoom r) = getMessagesForRoom s c r"
| "handle s c GetAllRooms = getAllRooms s c"
| "handle s c Disconnect = disconnect s c"

definition after :: "result \<Rightarrow> server" where
  "after res = fst (snd res)"

fun run :: "server \<Rightarrow> (string \<times> request) list \<Rightarrow> server" where
  "run s [] = s"
| "run s ((c, rq) # evs) = run (after (handle s c rq)) evs"

text \<open>
  The \<^verbatim>\<open>createRoom\<close> requests of a run that ask, on a socket that is authenticated at
  that moment, for a name that is not blank and is \<open>k\<close> up to letter case; and the responses
  to them, in order.
\<close>

fun asks_for :: "string \<Rightarrow> server \<Rightarrow> string \<Rightarrow> request \<Rightarrow> bool" where
  "asks_for k s c (CreateRoom (Some nm) now rnd) \<longleftrightarrow>
     serverUsers s c \<noteq> None \<and> trim nm \<noteq> [] \<and> toLowerCase (trim nm) = k"
| "asks_for k s c rq \<longleftrightarrow> False"

fun create_responses :: "string \<Rightarrow> server \<Rightarrow> (string \<times> request) list \<Rightarrow> response list" where
  "create_responses k s [] = []"
| "create_responses k s ((c, rq) # evs) =
     (if asks_for k s c rq then [fst (handle s c rq)] else []) @
     create_responses k (after (handle s c rq)) evs"

text \<open>The requests whose handlers write neither the directory nor a log.\<close>

fun appends_nothing :: "request \<Rightarrow> bool" where
  "appends_nothing (CreateRoom n now rnd) = False"
| "appends_nothing (SendMessage r t now rnd now') = False"
| "appends_nothing rq = True"

subsection \<open>State predicates\<close>

text \<open>Every log is the log of a room of the directory and holds messages of that room only.\<close>

definition logs_wf :: "server \<Rightarrow> bool" where
  "logs_wf s \<longleftrightarrow>
     (\<forall>rid log. serverMessagesByRoom s rid = Some log \<longrightarrow>
        rid \<in> room_id ` set (serverRooms s) \<and> (\<forall>m\<in>set log. roomId m = rid))"

text \<open>Every stored message names a room of the directory.\<close>

definition referential_integrity :: "server \<Rightarrow> bool" where
  "referential_integrity s \<longleftrightarrow>
     (\<forall>rid log. serverMessagesByRoom s rid = Some log \<longrightarrow>
        (\<forall>m\<in>set log. \<exists>r\<in>set (serverRooms s). room_id r = roomId m))"

subsection \<open>Example runs\<close>

text \<open>Alice connects and logs in.\<close>

definition s_alice :: server where
  "s_alice = run initial [(''c1'', Connect), (''c1'', Login (Some ''alice''))]"

text \<open>She creates the room general; Bob connects and logs in.\<close>

definition s_general :: server where
  "s_general = run s_alice [(''c1'', CreateRoom (Some ''general'') 1 ''abcde''),
                            (''c2'', Connect), (''c2'', Login (Some ''bob''))]"

text \<open>Alice says hello in general.\<close>

definition s_hello :: server where
  "s_hello = run s_general
     [(''c1'', SendMessage (Some ''room-1-abcde'') (Some '' hello '') 2 ''fghij'' 3)]"


section \<open>Basic facts\<close>

lemmas handler_defs = connection_def login_def createRoom_def joinRoom_def sendMessage_def
  getMessagesForRoom_def getAllRooms_def disconnect_def push_message_def socket_join_def
  leave_previous_def after_def Let_def

lemma trim_Nil [simp]: "trim [] = []"
  by (simp add: trim_def)

lemma find_snoc: "\<forall>x\<in>set xs. \<not> P x \<Longrightarrow> P y \<Longrightarrow> find P (xs @ [y]) = Some y"
  by (induction xs) auto

lemma find_room_id:
  "find (\<lambda>r. room_id r = rid) rs = Some rm \<Longrightarrow> rm \<in> set rs \<and> room_id rm = rid"
  by (auto simp: find_Some_iff)

lemma find_room_id_None:
  "find (\<lambda>r. room_id r = rid) rs = None \<longleftrightarrow> rid \<notin> room_id ` set rs"
  by (auto simp: find_None_iff)

subsection \<open>Evaluating the example runs\<close>

lemma id_examples:
  "new_room_id (Suc 0) r = ''room-1-'' @ r" "new_room_id 2 r = ''room-2-'' @ r"
  "new_msg_id 2 r = ''msg-2-'' @ r"
proof -
  have "string_of_nat (Suc 0) = ''1''" "string_of_nat 2 = ''2''"
    by code_simp+
  then show "new_room_id (Suc 0) r = ''room-1-'' @ r" "new_room_id 2 r = ''room-2-'' @ r"
    "new_msg_id 2 r = ''msg-2-'' @ r"
    by (simp_all add: new_room_id_def new_msg_id_def)
qed

lemma trim_examples:
  "trim ''alice'' = ''alice''" "trim ''bob'' = ''bob''" "trim ''carol'' = ''carol''"
  "trim ''general'' = ''general''" "trim ''General'' = ''General''"
  "trim ''random'' = ''random''" "trim '' hello '' = ''hello''" "trim '' alice '' = ''alice''"
  "trim ''hi'' = ''hi''" "trim ''  '' = []" "trim [CHR 0xA0] = []"
  "trim [CHR 0xA0, CHR ''h'', CHR ''i'', CHR 0xA0] = ''hi''"
  "trim [CHR 0xC0, CHR ''b''] = [CHR 0xC0, CHR ''b'']"
  "trim [CHR 0xE0, CHR ''B''] = [CHR 0xE0, CHR ''B'']"
  by (simp_all add: trim_def is_space_def)

lemma lower_examples:
  "toLowerCase ''general'' = ''general''" "toLowerCase ''General'' = ''general''"
  "toLowerCase ''random'' = ''random''"
  "toLowerCase [CHR 0xC0, CHR ''b''] = [CHR 0xE0, CHR ''b'']"
  "toLowerCase [CHR 0xE0, CHR ''B''] = [CHR 0xE0, CHR ''b'']"
  "toLowerCase [CHR 0xD7, CHR 0xDE] = [CHR 0xD7, CHR 0xFE]"
  by code_simp+

lemmas example_eval = initial_def handler_defs trim_examples lower_examples id_examples
  js_get_def js_get_or_empty_def object_prototype_keys_def

lemma s_alice_eq:
  "s_alice = \<lparr>serverUsers = [''c1'' \<mapsto> \<lparr>user_id = ''c1'', user_name = ''alice''\<rparr>],
     serverRooms = [], serverMessagesByRoom = Map.empty, connected = {''c1''},
     socket_rooms = (\<lambda>c. {})(''c1'' := {''c1''})\<rparr>"
  by (simp add: s_alice_def example_eval)

lemma s_general_eq:
  "s_general = \<lparr>serverUsers = [''c1'' \<mapsto> \<lparr>user_id = ''c1'', user_name = ''alice''\<rparr>,
                                ''c2'' \<mapsto> \<lparr>user_id = ''c2'', user_name = ''bob''\<rparr>],
     serverRooms = [\<lparr>room_id = ''room-1-abcde'', room_name = ''general'',
                     createdBy = \<lparr>user_id = ''c1'', user_name = ''alice''\<rparr>\<rparr>],
     serverMessagesByRoom = [''room-1-abcde'' \<mapsto> []], connected = {''c1'', ''c2''},
     socket_rooms = (\<lambda>c. {})(''c1'' := {''room-1-abcde'', ''c1''}, ''c2'' := {''c2''})\<rparr>"
  by (simp add: s_general_def s_alice_eq example_eval insert_commute)

lemma s_hello_eq:
  "s_hello = s_general\<lparr>serverMessagesByRoom := [''room-1-abcde'' \<mapsto>
       [\<lparr>msg_id = ''msg-2-fghij'', roomId = ''room-1-abcde'',
         sender = \<lparr>user_id = ''c1'', user_name = ''alice''\<rparr>, msg_text = ''hello'',
         timestamp = 3\<rparr>]]\<rparr>"
  by (simp add: s_hello_def s_general_eq example_eval)


section \<open>Login\<close>

text \<open>
  Claim C8. \<open>login\<close> answers \<^verbatim>\<open>Username is required.\<close> and leaves the state as it was
  when the name is missing or trims to nothing. Otherwise it binds the socket id to the identity
  with that id and the trimmed name, whatever was bound before and whatever names other
  sockets carry, and answers with that identity and the room directory.
\<close>

theorem login_spec:
  "((username = None \<or> (\<exists>n. username = Some n \<and> trim n = [])) \<longrightarrow>
      login s sid username = (ErrorResp ''Username is required.'', s, []))
   \<and> (\<forall>n. username = Some n \<and> trim n \<noteq> [] \<longrightarrow>
      login s sid username =
        (LoginResp \<lparr>user_id = sid, user_name = trim n\<rparr> (serverRooms s),
         s\<lparr>serverUsers := (serverUsers s)(sid \<mapsto> \<lparr>user_id = sid, user_name = trim n\<rparr>)\<rparr>, []))"
  by (auto simp: login_def Let_def)

text \<open>Bob's socket logs in again as \<open>alice\<close>, a name already taken, then with a name of
  blanks, then with a name that is one no-break space.\<close>

theorem login_spec_witness:
  "login s_general ''c2'' (Some '' alice '') =
     (LoginResp \<lparr>user_id = ''c2'', user_name = ''alice''\<rparr> (serverRooms s_general),
      s_general\<lparr>serverUsers :=
        (serverUsers s_general)(''c2'' \<mapsto> \<lparr>user_id = ''c2'', user_name = ''alice''\<rparr>)\<rparr>, []) \<and>
   login s_general ''c2'' (Some ''  '') = (ErrorResp ''Username is required.'', s_general, []) \<and>
   login s_general ''c2'' (Some [CHR 0xA0]) = (ErrorResp ''Username is required.'', s_general, [])"
  using login_spec [of "Some '' alice ''" s_general "''c2''"]
    login_spec [of "Some ''  ''" s_general "''c2''"]
    login_spec [of "Some [CHR 0xA0]" s_general "''c2''"]
  by (simp add: trim_examples)

section \<open>Sending a message\<close>

text \<open>
  Claim C5 as the spec has it fails on a room id of blanks: the handler tests the id with
  \<^verbatim>\<open>!roomId\<close> and never trims it, so such an id passes the input check and is answered
  \<^verbatim>\<open>Room does not exist.\<close>
\<close>

theorem sendMessage_blank_roomId_counterexample:
  "serverUsers s_alice ''c1'' \<noteq> None \<and> trim ''  '' = [] \<and>
   fst (sendMessage s_alice ''c1'' (Some ''  '') (Some ''hi'') 2 ''abcde'' 2)
     = ErrorResp ''Room does not exist.'' \<and>
   fst (sendMessage s_alice ''c1'' (Some ''  '') (Some ''hi'') 2 ''abcde'' 2)
     \<noteq> ErrorResp ''Room ID and text are required.''"
  by (simp add: s_alice_eq example_eval)

text \<open>
  Claim C5, amended. For an authenticated connection \<open>sendMessage\<close> answers
  \<^verbatim>\<open>Room ID and text are required.\<close> exactly when the room id is missing or the empty
  string, or the text is missing or trims to nothing; the state is then unchanged.
\<close>

theorem sendMessage_invalid_input:
  assumes "serverUsers s sid = Some u"
  shows "(fst (sendMessage s sid roomId' text' now rnd now')
            = ErrorResp ''Room ID and text are required.''
          \<longleftrightarrow> (roomId' = None \<or> roomId' = Some [] \<or> text' = None \<or>
               (\<exists>t. text' = Some t \<and> trim t = [])))
         \<and> (fst (sendMessage s sid roomId' text' now rnd now')
               = ErrorResp ''Room ID and text are required.''
            \<longrightarrow> after (sendMessage s sid roomId' text' now rnd now') = s)"
  using assms
  by (auto simp: sendMessage_def after_def push_message_def Let_def
      split: option.splits jsval.splits)

theorem sendMessage_invalid_input_witness:
  "fst (sendMessage s_general ''c1'' (Some ''room-1-abcde'') (Some ''  '') 2 ''fghij'' 2)
     = ErrorResp ''Room ID and text are required.'' \<and>
   after (sendMessage s_general ''c1'' (Some ''room-1-abcde'') (Some ''  '') 2 ''fghij'' 2)
     = s_general \<and>
   fst (sendMessage s_general ''c1'' (Some ''room-1-abcde'') (Some ''hi'') 2 ''fghij'' 2)
     \<noteq> ErrorResp ''Room ID and text are required.'' \<and>
   fst (sendMessage s_general ''c1'' (Some ''room-1-abcde'') (Some [CHR 0xA0]) 2 ''fghij'' 2)
     = ErrorResp ''Room ID and text are required.''"
proof -
  have u: "serverUsers s_general ''c1'' = Some \<lparr>user_id = ''c1'', user_name = ''alice''\<rparr>"
    by (simp add: s_general_eq)
  from sendMessage_invalid_input [OF u, of "Some ''room-1-abcde''" "Some ''  ''" 2 "''fghij''" 2]
    sendMessage_invalid_input [OF u, of "Some ''room-1-abcde''" "Some ''hi''" 2 "''fghij''" 2]
    sendMessage_invalid_input [OF u, of "Some ''room-1-abcde''" "Some [CHR 0xA0]" 2 "''fghij''" 2]
  show ?thesis
    by (simp add: trim_examples)
qed

section \<open>Error responses and the shared state\<close>

text \<open>
  Claim C4 as the spec has it fails on \<open>createRoom\<close> with a name that is taken: the
  response carries an error next to the existing room, and the handler has joined the caller to
  that room's group. Bob asks for \<open>General\<close> when Alice's \<open>general\<close> exists.
\<close>

theorem createRoom_conflict_counterexample:
  "fst (createRoom s_general ''c2'' (Some ''General'') 2 ''fghij'') =
     RoomResp \<lparr>room_id = ''room-1-abcde'', room_name = ''general'',
                createdBy = \<lparr>user_id = ''c1'', user_name = ''alice''\<rparr>\<rparr> False
       (Some ''Room already exists. Joining existing room.'') \<and>
   socket_rooms (after (createRoom s_general ''c2'' (Some ''General'') 2 ''fghij'')) ''c2''
     = {''room-1-abcde'', ''c2''} \<and>
   socket_rooms s_general ''c2'' = {''c2''}"
  by (simp add: s_general_eq example_eval)

lemma createRoom_error_cases:
  assumes "createRoom s c n now rnd = (resp, s', out)"
  shows "(\<forall>e. resp = ErrorResp e \<longrightarrow> s' = s \<and> out = []) \<and>
         (\<forall>r isNew e. resp = RoomResp r isNew (Some e) \<longrightarrow>
            s' = socket_join s c (room_id r) \<and> out = [] \<and> r \<in> set (serverRooms s))"
  using assms
  by (auto simp: createRoom_def Let_def find_Some_iff split: option.splits if_splits)

text \<open>
  Claim C4, amended. Whatever the request and the state: a response that is an error and
  nothing else leaves the whole state as it was and emits nothing; the response of
  \<open>createRoom\<close> that carries an error next to a room leaves identities, directory and logs
  as they were and changes the group table only by adding the caller to that room's group;
  \<open>sendMessage\<close> with a text that trims to nothing is answered with an error and leaves
  the state as it was.
\<close>

theorem error_response_state:
  assumes "handle s c rq = (resp, s', out)"
  shows "(\<forall>e. resp = ErrorResp e \<longrightarrow> s' = s \<and> out = []) \<and>
         (\<forall>r isNew e. resp = RoomResp r isNew (Some e) \<longrightarrow>
            s' = socket_join s c (room_id r) \<and> out = [] \<and> r \<in> set (serverRooms s)) \<and>
         (\<forall>r t now rnd now'. rq = SendMessage r (Some t) now rnd now' \<and> trim t = [] \<longrightarrow>
            (\<exists>e. resp = ErrorResp e) \<and> s' = s)"
proof (cases rq)
  case (CreateRoom n now rnd)
  with assms createRoom_error_cases [of s c n now rnd resp s' out] show ?thesis by simp
next
  case (SendMessage r t now rnd now')
  with assms show ?thesis
    by (auto simp: sendMessage_def push_message_def Let_def
        split: option.splits if_splits jsval.splits)
qed (use assms in \<open>auto simp: handler_defs split: option.splits if_splits\<close>)

theorem error_response_state_witness:
  "handle s_general ''c2'' (JoinRoom (Some ''room-9-zzzzz''))
     = (ErrorResp ''Room not found.'', s_general, []) \<and>
   handle s_general ''c2'' (SendMessage (Some ''room-1-abcde'') (Some ''  '') 2 ''fghij'' 2)
     = (ErrorResp ''Room ID and text are required.'', s_general, []) \<and>
   after (handle s_general ''c2'' (CreateRoom (Some ''General'') 2 ''fghij''))
     = socket_join s_general ''c2'' ''room-1-abcde''"
proof -
  have 1: "handle s_general ''c2'' (JoinRoom (Some ''room-9-zzzzz''))
      = (ErrorResp ''Room not found.'', s_general, [])"
    using error_response_state [of s_general "''c2''" "JoinRoom (Some ''room-9-zzzzz'')"
        "ErrorResp ''Room not found.''" s_general "[]"]
    by (simp add: s_general_eq example_eval)
  have 2: "handle s_general ''c2'' (SendMessage (Some ''room-1-abcde'') (Some ''  '') 2 ''fghij'' 2)
      = (ErrorResp ''Room ID and text are required.'', s_general, [])"
    by (simp add: s_general_eq example_eval)
  have 3: "handle s_general ''c2'' (CreateRoom (Some ''General'') 2 ''fghij'')
      = (RoomResp \<lparr>room_id = ''room-1-abcde'', room_name = ''general'',
                     createdBy = \<lparr>user_id = ''c1'', user_name = ''alice''\<rparr>\<rparr> False
           (Some ''Room already exists. Joining existing room.''),
         after (handle s_general ''c2'' (CreateRoom (Some ''General'') 2 ''fghij'')), [])"
    by (simp add: s_general_eq example_eval)
  from error_response_state [OF 3, THEN conjunct2, THEN conjunct1, rule_format, OF refl] have
    "after (handle s_general ''c2'' (CreateRoom (Some ''General'') 2 ''fghij''))
       = socket_join s_general ''c2'' ''room-1-abcde''"
    by simp
  with 1 2 show ?thesis by simp
qed

section \<open>Room membership\<close>

lemma joinRoom_membership:
  assumes "joinRoom s c r = (MessagesResp v, s', out)"
  shows "\<exists>rid. r = Some rid \<and> subscriptions s' c = {rid} - {c} \<and>
           (\<forall>c'. c' \<noteq> c \<longrightarrow> socket_rooms s' c' = socket_rooms s c')"
  using assms
  by (auto simp: joinRoom_def socket_join_def leave_previous_def Let_def subscriptions_def
      split: option.splits)

text \<open>
  Claim C1 is broken by \<open>createRoom\<close>. Where \<open>joinRoom\<close> leaves the rooms the socket was
  in before it joins the target, \<open>createRoom\<close> only joins: Alice creates \<open>general\<close>, then
  \<open>random\<close>, and her socket is subscribed to both.
\<close>

theorem createRoom_keeps_previous_room:
  "subscriptions (run s_alice [(''c1'', CreateRoom (Some ''general'') 1 ''abcde''),
                               (''c1'', CreateRoom (Some ''random'') 2 ''abcde'')]) ''c1''
     = {''room-1-abcde'', ''room-2-abcde''}"
  by (auto simp: s_alice_eq example_eval subscriptions_def)

section \<open>Room ids that are property names of Object.prototype\<close>

lemma sendMessage_not_found_iff:
  assumes "logs_wf s" and "serverUsers s c = Some u" and "rid \<noteq> []" and "trim txt \<noteq> []"
    and "rid \<notin> set object_prototype_keys"
  shows "fst (sendMessage s c (Some rid) (Some txt) now rnd now') = ErrorResp ''Room does not exist.''
           \<longleftrightarrow> rid \<notin> room_id ` set (serverRooms s)"
proof (cases "serverMessagesByRoom s rid")
  case None
  show ?thesis
  proof (cases "find (\<lambda>r. room_id r = rid) (serverRooms s)")
    case None
    then have "rid \<notin> room_id ` set (serverRooms s)"
      by (simp add: find_room_id_None)
    with None \<open>serverMessagesByRoom s rid = None\<close> assms(2-5) show ?thesis
      by (auto simp: sendMessage_def js_get_def Let_def)
  next
    case (Some rm)
    then have "rid \<in> room_id ` set (serverRooms s)"
      by (auto dest: find_room_id)
    with Some \<open>serverMessagesByRoom s rid = None\<close> assms(2-5) show ?thesis
      by (auto simp: sendMessage_def js_get_def push_message_def Let_def)
  qed
next
  case (Some log)
  with assms(1) have "rid \<in> room_id ` set (serverRooms s)"
    by (simp add: logs_wf_def)
  with Some assms(2-5) show ?thesis
    by (auto simp: sendMessage_def push_message_def js_get_def Let_def)
qed

lemma sendMessage_lazy_log:
  assumes "serverUsers s c = Some u" and "rid \<noteq> []" and "trim txt \<noteq> []"
    and "rid \<notin> set object_prototype_keys" and "rid \<in> room_id ` set (serverRooms s)"
    and "serverMessagesByRoom s rid = None"
  shows "\<exists>m. fst (sendMessage s c (Some rid) (Some txt) now rnd now') = SentResp m \<and>
           serverMessagesByRoom (after (sendMessage s c (Some rid) (Some txt) now rnd now')) rid
             = Some [m]"
proof -
  from assms(5) obtain rm where "find (\<lambda>r. room_id r = rid) (serverRooms s) = Some rm"
    by (cases "find (\<lambda>r. room_id r = rid) (serverRooms s)") (auto simp: find_room_id_None)
  with assms(1-4,6) show ?thesis
    by (auto simp: sendMessage_def js_get_def push_message_def after_def Let_def)
qed

text \<open>
  Claim C6 is broken on a room id that is a property name of \<^verbatim>\<open>Object.prototype\<close>. No room
  has the id \<open>constructor\<close>, yet \<^verbatim>\<open>serverMessagesByRoom["constructor"]\<close> is the inherited
  constructor: the existence check is skipped, \<^verbatim>\<open>push\<close> is not a function of it, and
  the handler throws instead of answering \<^verbatim>\<open>Room does not exist.\<close>
\<close>

theorem sendMessage_inherited_key:
  "find (\<lambda>r. room_id r = ''constructor'') (serverRooms s_general) = None \<and>
   sendMessage s_general ''c1'' (Some ''constructor'') (Some ''hi'') 2 ''fghij'' 2
     = (Uncaught_TypeError, s_general, [])"
  by (simp add: s_general_eq example_eval)

lemma getMessagesForRoom_own_key:
  "getMessagesForRoom s c r =
     (if serverUsers s c = None then (ListResp (Array []), s, [])
      else if serverMessagesByRoom s (property_key r) = None \<and>
              property_key r \<in> set object_prototype_keys
      then (ListResp Inherited, s, [])
      else (ListResp (Array (case serverMessagesByRoom s (property_key r) of
                               None \<Rightarrow> [] | Some log \<Rightarrow> log)), s, []))"
  by (auto simp: getMessagesForRoom_def js_get_or_empty_def js_get_def split: option.splits)

text \<open>
  Claim C10 is broken on the same ids. The handler never answers with an error and gives an
  unauthenticated socket the empty list, but for the id \<open>constructor\<close>, which names no log,
  an authenticated socket gets the inherited constructor and not the empty list.
\<close>

theorem getMessagesForRoom_inherited_key:
  "serverMessagesByRoom s_general ''constructor'' = None \<and>
   getMessagesForRoom s_general ''c1'' (Some ''constructor'')
     = (ListResp Inherited, s_general, [])"
  by (simp add: s_general_eq example_eval property_key_def)

section \<open>Delivery\<close>

text \<open>Whenever \<open>sendMessage\<close> answers with a message, that message is at the end of the
  log of the room it names and \<open>newMessage\<close> with it is the one event emitted, to that
  room's group.\<close>

lemma sendMessage_sent_emits:
  assumes "sendMessage s a roomId' text' now rnd now' = (SentResp m, s', out)"
  shows "\<exists>R log. roomId' = Some R \<and> roomId m = R \<and>
           serverMessagesByRoom s' R = Some (log @ [m]) \<and>
           out = [(ToRoom R, NewMessage m)] \<and> socket_rooms s' = socket_rooms s \<and>
           connected s' = connected s"
  using assms
  by (auto simp: sendMessage_def push_message_def Let_def
      split: option.splits if_splits jsval.splits)



section \<open>Round trip through the log\<close>

lemma appends_nothing_handle:
  "appends_nothing rq \<Longrightarrow>
     serverMessagesByRoom (after (handle s c rq)) = serverMessagesByRoom s"
  by (cases rq) (auto simp: handler_defs split: option.splits)

lemma appends_nothing_run:
  "\<forall>e\<in>set evs. appends_nothing (snd e) \<Longrightarrow>
     serverMessagesByRoom (run s evs) = serverMessagesByRoom s"
  by (induction evs arbitrary: s) (auto simp: appends_nothing_handle)

lemma sendMessage_log:
  assumes "sendMessage s a roomId' text' now rnd now' = (SentResp m, s', out)"
    and "serverUsers s a = Some u"
  shows "\<exists>R t log. roomId' = Some R \<and> text' = Some t \<and>
           serverMessagesByRoom s' R = Some (log @ [m]) \<and> msg_text m = trim t \<and> sender m = u"
  using assms
  by (auto simp: sendMessage_def push_message_def Let_def
      split: option.splits if_splits jsval.splits)

lemma joinRoom_backlog:
  assumes "joinRoom s b (Some R) = (MessagesResp v, s', out)"
    and "serverMessagesByRoom s R = Some log"
  shows "v = Array log"
  using assms
  by (auto simp: joinRoom_def socket_join_def leave_previous_def Let_def js_get_or_empty_def
      js_get_def split: option.splits)

text \<open>
  Claim C7. Let a connection whose identity is \<open>u\<close> send \<open>t\<close> to room \<open>R\<close> with success,
  and let any requests follow that create no room and send no message (another socket
  connecting and logging in, say). A \<open>joinRoom\<close> of \<open>R\<close> that then succeeds, on any
  connection, returns a backlog that is not empty and whose last message has the trimmed
  \<open>t\<close> as text and the name of \<open>u\<close> as sender name.
\<close>

theorem send_then_join_roundtrip:
  assumes "serverUsers s a = Some u"
    and "sendMessage s a (Some R) (Some t) now rnd now' = (SentResp m, s1, out)"
    and "\<forall>e\<in>set evs. appends_nothing (snd e)"
    and "joinRoom (run s1 evs) b (Some R) = (MessagesResp v, s2, out')"
  shows "\<exists>backlog. v = Array backlog \<and> backlog \<noteq> [] \<and> msg_text (last backlog) = trim t \<and>
           user_name (sender (last backlog)) = user_name u"
proof -
  from sendMessage_log [OF assms(2) assms(1)]
  obtain log where log: "serverMessagesByRoom s1 R = Some (log @ [m])"
    and m: "msg_text m = trim t" "sender m = u"
    by auto
  from log assms(3) have "serverMessagesByRoom (run s1 evs) R = Some (log @ [m])"
    by (simp add: appends_nothing_run)
  from joinRoom_backlog [OF assms(4) this] have "v = Array (log @ [m])" .
  with m show ?thesis by simp
qed

text \<open>Alice says hello in \<open>general\<close>; Carol connects, logs in and joins.\<close>

theorem send_then_join_roundtrip_witness:
  "\<exists>backlog.
     fst (joinRoom (run s_hello [(''c3'', Connect), (''c3'', Login (Some ''carol''))]) ''c3''
            (Some ''room-1-abcde'')) = MessagesResp (Array backlog) \<and>
     backlog \<noteq> [] \<and> msg_text (last backlog) = ''hello'' \<and>
     user_name (sender (last backlog)) = ''alice''"
proof -
  let ?m = "\<lparr>msg_id = ''msg-2-fghij'', roomId = ''room-1-abcde'',
             sender = \<lparr>user_id = ''c1'', user_name = ''alice''\<rparr>, msg_text = ''hello'',
             timestamp = 3\<rparr>"
  let ?evs = "[(''c3'', Connect), (''c3'', Login (Some ''carol''))]"
  let ?join = "joinRoom (run s_hello ?evs) ''c3'' (Some ''room-1-abcde'')"
  have u: "serverUsers s_general ''c1'' = Some \<lparr>user_id = ''c1'', user_name = ''alice''\<rparr>"
    by (simp add: s_general_eq)
  have sent: "sendMessage s_general ''c1'' (Some ''room-1-abcde'') (Some '' hello '') 2 ''fghij'' 3
      = (SentResp ?m, s_hello, [(ToRoom ''room-1-abcde'', NewMessage ?m)])"
    by (simp add: s_hello_eq) (simp add: s_general_eq example_eval)
  have quiet: "\<forall>e\<in>set ?evs. appends_nothing (snd e)"
    by simp
  have resp: "fst ?join = MessagesResp (Array [?m])"
    by (simp add: s_hello_eq s_general_eq example_eval)
  then have joined: "?join = (MessagesResp (Array [?m]), fst (snd ?join), snd (snd ?join))"
    by (metis prod.collapse)
  from send_then_join_roundtrip [OF u sent quiet joined] resp show ?thesis
    by (simp add: trim_examples)
qed

section \<open>Room names are unique up to case\<close>

lemma find_filter_single: "filter P xs = [r] \<Longrightarrow> find P xs = Some r"
  by (induction xs) (auto split: if_splits)

lemma createRoom_existing:
  assumes "serverUsers s c \<noteq> None" and "trim nm \<noteq> []"
    and "find (\<lambda>r. toLowerCase (room_name r) = toLowerCase (trim nm)) (serverRooms s) = Some r"
  shows "createRoom s c (Some nm) now rnd =
           (RoomResp r False (Some ''Room already exists. Joining existing room.''),
            socket_join s c (room_id r), [])"
  using assms by (auto simp: createRoom_def Let_def)

lemma createRoom_new:
  assumes "serverUsers s c \<noteq> None" and "trim nm \<noteq> []"
    and "\<forall>r\<in>set (serverRooms s). toLowerCase (room_name r) \<noteq> toLowerCase (trim nm)"
  shows "\<exists>r. fst (createRoom s c (Some nm) now rnd) = RoomResp r True None \<and>
           room_name r = trim nm \<and>
           serverRooms (after (createRoom s c (Some nm) now rnd)) = serverRooms s @ [r]"
proof -
  from assms(3)
  have "find (\<lambda>r. toLowerCase (room_name r) = toLowerCase (trim nm)) (serverRooms s) = None"
    by (simp add: find_None_iff)
  with assms(1,2) show ?thesis
    by (auto simp: createRoom_def Let_def after_def socket_join_def)
qed

text \<open>A request leaves the directory as it is or appends one room, and then it was a
  \<open>createRoom\<close> for a name that no room had.\<close>

lemma createRoom_directory:
  "serverRooms (after (createRoom s c n now rnd)) = serverRooms s \<or>
   (\<exists>r. serverRooms (after (createRoom s c n now rnd)) = serverRooms s @ [r] \<and>
        asks_for (toLowerCase (room_name r)) s c (CreateRoom n now rnd) \<and>
        (\<forall>x\<in>set (serverRooms s). toLowerCase (room_name x) \<noteq> toLowerCase (room_name r)))"
  by (auto simp: createRoom_def Let_def after_def socket_join_def find_None_iff
      split: option.splits)

lemma handle_directory:
  "serverRooms (after (handle s c rq)) = serverRooms s \<or>
   (\<exists>r. serverRooms (after (handle s c rq)) = serverRooms s @ [r] \<and>
        asks_for (toLowerCase (room_name r)) s c rq \<and>
        (\<forall>x\<in>set (serverRooms s). toLowerCase (room_name x) \<noteq> toLowerCase (room_name r)))"
proof (cases rq)
  case (CreateRoom n now rnd)
  with createRoom_directory [of s c n now rnd] show ?thesis by simp
qed (auto simp: handler_defs js_get_def split: option.splits jsval.splits)

lemma asks_for_response:
  assumes "asks_for k s c rq"
    and "filter (\<lambda>r. toLowerCase (room_name r) = k) (serverRooms s) = [r]"
  shows "fst (handle s c rq) = RoomResp r False (Some ''Room already exists. Joining existing room.'')"
proof -
  from assms(1) obtain nm now rnd where rq: "rq = CreateRoom (Some nm) now rnd"
    and nm: "serverUsers s c \<noteq> None" "trim nm \<noteq> []" "toLowerCase (trim nm) = k"
    by (cases "(k, s, c, rq)" rule: asks_for.cases) auto
  from assms(2) nm(3)
  have "find (\<lambda>r. toLowerCase (room_name r) = toLowerCase (trim nm)) (serverRooms s) = Some r"
    by (simp add: find_filter_single)
  from createRoom_existing [OF nm(1,2) this] rq show ?thesis
    by simp
qed

lemma single_room_kept:
  assumes "filter (\<lambda>r. toLowerCase (room_name r) = k) (serverRooms s) = [r]"
  shows "filter (\<lambda>r. toLowerCase (room_name r) = k) (serverRooms (after (handle s c rq))) = [r]"
proof -
  from assms have "r \<in> set (filter (\<lambda>r. toLowerCase (room_name r) = k) (serverRooms s))"
    by simp
  then have "r \<in> set (serverRooms s)" and "toLowerCase (room_name r) = k"
    by simp_all
  with handle_directory [of s c rq] assms show ?thesis
    by auto
qed

lemma create_responses_existing:
  assumes "filter (\<lambda>r. toLowerCase (room_name r) = k) (serverRooms s) = [r]"
  shows "create_responses k s evs =
           replicate (length (create_responses k s evs))
             (RoomResp r False (Some ''Room already exists. Joining existing room.'')) \<and>
         filter (\<lambda>r. toLowerCase (room_name r) = k) (serverRooms (run s evs)) = [r]"
  using assms
proof (induction evs arbitrary: s)
  case Nil
  then show ?case by simp
next
  case (Cons ev evs)
  obtain c rq where ev: "ev = (c, rq)"
    by (cases ev) auto
  from single_room_kept [OF Cons.prems]
  have "filter (\<lambda>r. toLowerCase (room_name r) = k) (serverRooms (after (handle s c rq))) = [r]" .
  from Cons.IH [OF this] asks_for_response [OF _ Cons.prems, of c rq] show ?case
    by (simp add: ev)
qed

text \<open>
  Claim C2. Take a state in which no room has the name \<open>k\<close> up to letter case (the initial
  state is one), and any run from it in which at least one \<open>createRoom\<close> asks, on an
  authenticated connection, for a name that is \<open>k\<close> up to letter case. Then the first of
  these calls answers with a new room and \<open>isNew = true\<close>, every later one answers with
  that same room (so the same id) and \<open>isNew = false\<close>, and at the end of the run that room
  is the only one of the directory with such a name.
\<close>

theorem createRoom_same_name_once:
  assumes "\<forall>r\<in>set (serverRooms s). toLowerCase (room_name r) \<noteq> k"
    and "create_responses k s evs \<noteq> []"
  shows "\<exists>r. create_responses k s evs =
             RoomResp r True None #
             replicate (length (create_responses k s evs) - 1)
               (RoomResp r False (Some ''Room already exists. Joining existing room.'')) \<and>
           filter (\<lambda>r. toLowerCase (room_name r) = k) (serverRooms (run s evs)) = [r]"
  using assms
proof (induction evs arbitrary: s)
  case Nil
  then show ?case by simp
next
  case (Cons ev evs)
  obtain c rq where ev: "ev = (c, rq)"
    by (cases ev) auto
  let ?s' = "after (handle s c rq)"
  show ?case
  proof (cases "asks_for k s c rq")
    case True
    then obtain nm now rnd where rq: "rq = CreateRoom (Some nm) now rnd"
      and nm: "serverUsers s c \<noteq> None" "trim nm \<noteq> []" "toLowerCase (trim nm) = k"
      by (cases "(k, s, c, rq)" rule: asks_for.cases) auto
    from Cons.prems(1) nm(3)
    have "\<forall>r\<in>set (serverRooms s). toLowerCase (room_name r) \<noteq> toLowerCase (trim nm)"
      by simp
    from createRoom_new [OF nm(1,2) this, of now rnd]
    obtain r where r: "fst (createRoom s c (Some nm) now rnd) = RoomResp r True None"
      "room_name r = trim nm"
      "serverRooms (after (createRoom s c (Some nm) now rnd)) = serverRooms s @ [r]"
      by blast
    from Cons.prems(1) r(2,3) nm(3) rq
    have "filter (\<lambda>r. toLowerCase (room_name r) = k) (serverRooms ?s') = [r]"
      by (simp add: filter_empty_conv [THEN iffD2])
    from create_responses_existing [OF this, of evs] True r(1) rq show ?thesis
      by (auto simp: ev)
  next
    case False
    from handle_directory [of s c rq] False Cons.prems(1)
    have "\<forall>r\<in>set (serverRooms ?s'). toLowerCase (room_name r) \<noteq> k"
      by auto
    moreover from False Cons.prems(2) have "create_responses k ?s' evs \<noteq> []"
      by (simp add: ev)
    ultimately show ?thesis
      using Cons.IH [of ?s'] False by (simp add: ev)
  qed
qed

text \<open>Alice asks for \<open>general\<close>; Bob connects, logs in and asks for \<open>General\<close>.\<close>

theorem createRoom_same_name_once_witness:
  "create_responses ''general'' s_alice
     [(''c1'', CreateRoom (Some ''general'') 1 ''abcde''), (''c2'', Connect),
      (''c2'', Login (Some ''bob'')), (''c2'', CreateRoom (Some ''General'') 2 ''fghij'')]
   = [RoomResp \<lparr>room_id = ''room-1-abcde'', room_name = ''general'',
                 createdBy = \<lparr>user_id = ''c1'', user_name = ''alice''\<rparr>\<rparr> True None,
      RoomResp \<lparr>room_id = ''room-1-abcde'', room_name = ''general'',
                 createdBy = \<lparr>user_id = ''c1'', user_name = ''alice''\<rparr>\<rparr> False
        (Some ''Room already exists. Joining existing room.'')]"
proof -
  let ?evs = "[(''c1'', CreateRoom (Some ''general'') 1 ''abcde''), (''c2'', Connect),
      (''c2'', Login (Some ''bob'')), (''c2'', CreateRoom (Some ''General'') 2 ''fghij'')]"
  have 1: "\<forall>r\<in>set (serverRooms s_alice). toLowerCase (room_name r) \<noteq> ''general''"
    by (simp add: s_alice_eq)
  have 2: "create_responses ''general'' s_alice ?evs \<noteq> []"
    by (simp add: s_alice_eq example_eval)
  from createRoom_same_name_once [OF 1 2] show ?thesis
    by (simp add: s_alice_eq example_eval)
qed

text \<open>The same with accented letters: a room is created under a name that begins with
  the capital U+00C0, and a request for the name that begins with the small U+00E0 and
  differs in case in the second letter too is answered with that room.\<close>

lemma createRoom_accented_name:
  "create_responses [CHR 0xE0, CHR ''b''] s_alice
     [(''c1'', CreateRoom (Some [CHR 0xC0, CHR ''b'']) 1 ''abcde''),
      (''c1'', CreateRoom (Some [CHR 0xE0, CHR ''B'']) 2 ''fghij'')]
   = [RoomResp \<lparr>room_id = ''room-1-abcde'', room_name = [CHR 0xC0, CHR ''b''],
                 createdBy = \<lparr>user_id = ''c1'', user_name = ''alice''\<rparr>\<rparr> True None,
      RoomResp \<lparr>room_id = ''room-1-abcde'', room_name = [CHR 0xC0, CHR ''b''],
                 createdBy = \<lparr>user_id = ''c1'', user_name = ''alice''\<rparr>\<rparr> False
        (Some ''Room already exists. Joining existing room.'')]"
  by (simp add: s_alice_eq example_eval)

section \<open>Referential integrity of the logs\<close>

lemma logs_wf_initial: "logs_wf initial"
  by (simp add: logs_wf_def initial_def)

lemma logs_wf_createRoom: "logs_wf s \<Longrightarrow> logs_wf (after (createRoom s c n now rnd))"
  by (auto simp: logs_wf_def handler_defs split: option.splits)

lemma logs_wf_sendMessage: "logs_wf s \<Longrightarrow> logs_wf (after (sendMessage s c r t now rnd now'))"
  by (auto simp: logs_wf_def handler_defs js_get_def
      split: option.splits jsval.splits if_splits dest!: find_room_id)

lemma logs_wf_handle:
  assumes "logs_wf s"
  shows "logs_wf (after (handle s c rq))"
proof (cases rq)
  case (CreateRoom n now rnd)
  with assms show ?thesis by (simp add: logs_wf_createRoom)
next
  case (SendMessage r t now rnd now')
  with assms show ?thesis by (simp add: logs_wf_sendMessage)
qed (use assms in \<open>auto simp: logs_wf_def handler_defs split: option.splits\<close>)

lemma logs_wf_run: "logs_wf s \<Longrightarrow> logs_wf (run s evs)"
  by (induction evs arbitrary: s) (auto simp: logs_wf_handle)

lemma logs_wf_integrity: "logs_wf s \<Longrightarrow> referential_integrity s"
  by (fastforce simp: logs_wf_def referential_integrity_def)

text \<open>
  Claim C9. In every state the server reaches from its start, by any requests on any
  sockets, every message of every log carries the id of a room of the directory; and so it
  is again after one more request, whichever it is (connect, login, createRoom, joinRoom,
  sendMessage, getMessagesForRoom, getAllRooms, disconnect).
\<close>

theorem referential_integrity_reachable:
  "referential_integrity (run initial evs) \<and>
   referential_integrity (after (handle (run initial evs) c rq))"
  by (simp add: logs_wf_integrity logs_wf_run logs_wf_handle logs_wf_initial)

text \<open>The run that ends with Alice's hello in \<open>general\<close>.\<close>

theorem referential_integrity_reachable_witness:
  "serverMessagesByRoom s_hello ''room-1-abcde'' =
     Some [\<lparr>msg_id = ''msg-2-fghij'', roomId = ''room-1-abcde'',
            sender = \<lparr>user_id = ''c1'', user_name = ''alice''\<rparr>, msg_text = ''hello'',
            timestamp = 3\<rparr>] \<and>
   ''room-1-abcde'' \<in> room_id ` set (serverRooms s_hello)"
proof -
  let ?evs = "[(''c1'', Connect), (''c1'', Login (Some ''alice'')),
               (''c1'', CreateRoom (Some ''general'') 1 ''abcde''),
               (''c2'', Connect), (''c2'', Login (Some ''bob''))]"
  let ?send = "SendMessage (Some ''room-1-abcde'') (Some '' hello '') 2 ''fghij'' 3"
  have "s_hello = after (handle (run initial ?evs) ''c1'' ?send)"
    by (simp add: s_hello_def s_general_def s_alice_def)
  with referential_integrity_reachable [of ?evs "''c1''" ?send]
  have "referential_integrity s_hello"
    by simp
  moreover have log: "serverMessagesByRoom s_hello ''room-1-abcde'' =
     Some [\<lparr>msg_id = ''msg-2-fghij'', roomId = ''room-1-abcde'',
            sender = \<lparr>user_id = ''c1'', user_name = ''alice''\<rparr>, msg_text = ''hello'',
            timestamp = 3\<rparr>]"
    by (simp add: s_hello_eq)
  ultimately obtain r where r: "r \<in> set (serverRooms s_hello)" "room_id r = ''room-1-abcde''"
    by (fastforce simp: referential_integrity_def)
  from r(1) have "room_id r \<in> room_id ` set (serverRooms s_hello)"
    by (rule imageI)
  with r(2) log show ?thesis
    by simp
qed

end
